theory Spec2Isabelle
  imports Main "HOL-Library.Word"
begin

section \<open>Messages\<close>

text \<open>
  The relay reads \<open>sarama.ConsumerMessage\<close> values and writes
  \<open>sarama.ProducerMessage\<close> values. Only the fields that \<open>main.go\<close> reads or
  writes are kept; every other field of a produced message keeps Go's zero value in all
  return statements of \<open>PartitionMsg\<close>. Go's \<open>int32\<close> is a 32-bit word read as two's
  complement (\<open>sint\<close>), \<open>[]byte\<close> is a list of bytes (a nil slice and an empty slice
  both have length 0 and are both \<open>[]\<close>), and a Go string is a list of \<open>char\<close>.
\<close>

type_synonym byte = "8 word"
type_synonym int32 = "32 word"
type_synonym int64 = "64 word"

record ConsumerMessage =
  cm_Key :: "byte list"
  cm_Value :: "byte list"
  cm_Topic :: string
  cm_Partition :: int32
  cm_Offset :: int64

text \<open>
  The fields \<open>Key\<close> and \<open>Value\<close> of a produced message have the interface type
  \<open>sarama.Encoder\<close>: a nil interface is \<open>None\<close>, and the only implementation the
  program uses is the conversion \<open>sarama.ByteEncoder(bytes)\<close>, which shares the bytes of
  the slice it converts.
\<close>

datatype Encoder = ByteEncoder "byte list"

record ProducerMessage =
  pm_Topic :: string
  pm_Key :: "Encoder option"
  pm_Value :: "Encoder option"
  pm_Partition :: int32

section \<open>Errors\<close>

text \<open>
  \<open>PartitionMsg\<close> builds its errors with \<open>fmt.Errorf\<close> from seven fixed texts; there
  is one constructor for each, in the order of the source, and \<open>error_text\<close> gives the
  text. The only other way the function can end without a message is the run-time panic
  of an integer division by zero.
\<close>

datatype routing_error =
    NotConfigured
  | ValueNotSet
  | NegativePartition
  | KeyNotSet
  | DestFewerPartitions
  | TargetPartitionMissing
  | InvalidPartitioner

fun error_text :: "routing_error \<Rightarrow> string" where
  "error_text NotConfigured = ''configuration error, partitioner or topic was not set.''"
| "error_text ValueNotSet = ''value is not set''"
| "error_text NegativePartition = ''the source message has a negative value for its partition''"
| "error_text KeyNotSet = ''key is not set, we can't use the hash function for this type of messages''"
| "error_text DestFewerPartitions = ''the dest topic has less partitions than the source, this is an invalid configuration and not compatible with keep partition.''"
| "error_text TargetPartitionMissing = ''the target partition does not exist on the destination topic''"
| "error_text InvalidPartitioner = ''invalid partitioner defined''"

datatype fault = Returned routing_error | DivideByZeroPanic

text \<open>
  The source has no error types, only texts. The specification sorts them into three
  classes (its section 7); \<open>class_of\<close> records which text belongs to which class, so
  that a statement about a class is a statement about the texts the code returns.
\<close>

datatype error_class = ConfigurationError | ValidationError | CapacityError

fun class_of :: "routing_error \<Rightarrow> error_class" where
  "class_of NotConfigured = ConfigurationError"
| "class_of InvalidPartitioner = ConfigurationError"
| "class_of ValueNotSet = ValidationError"
| "class_of NegativePartition = ValidationError"
| "class_of KeyNotSet = ValidationError"
| "class_of DestFewerPartitions = CapacityError"
| "class_of TargetPartitionMissing = CapacityError"

fun fails_with :: "fault + ProducerMessage \<Rightarrow> error_class \<Rightarrow> bool" where
  "fails_with (Inl (Returned e)) c = (class_of e = c)"
| "fails_with (Inl DivideByZeroPanic) c = False"
| "fails_with (Inr msg) c = False"

section \<open>PartitionMsg\<close>

text \<open>
  Go's \<open>%\<close> on signed integers truncates towards zero: the remainder has the sign of the
  dividend. The divisor 0 is not handled here; \<open>PartitionMsg\<close> panics before it gets
  this far.
\<close>

definition rem_int32 :: "int32 \<Rightarrow> int32 \<Rightarrow> int32" where
  "rem_int32 a b = word_of_int (sgn (sint a) * (\<bar>sint a\<bar> mod \<bar>sint b\<bar>))"

definition PartitionMsg ::
  "string \<Rightarrow> string \<Rightarrow> ConsumerMessage \<Rightarrow> int32 \<Rightarrow> fault + ProducerMessage" where
  "PartitionMsg partitioner topic origmsg numPartitions =
    (if partitioner = [] \<or> topic = [] then Inl (Returned NotConfigured)
     else if length (cm_Value origmsg) = 0 then Inl (Returned ValueNotSet)
     else if sint (cm_Partition origmsg) < 0 then Inl (Returned NegativePartition)
     else if partitioner = ''hash'' then
       (if length (cm_Key origmsg) = 0 then Inl (Returned KeyNotSet)
        else Inr \<lparr>pm_Topic = topic,
                  pm_Key = Some (ByteEncoder (cm_Key origmsg)),
                  pm_Value = Some (ByteEncoder (cm_Value origmsg)),
                  pm_Partition = 0\<rparr>)
     else if partitioner = ''keeppartition'' then
       (if sint (numPartitions - 1) < sint (cm_Partition origmsg)
        then Inl (Returned DestFewerPartitions)
        else Inr \<lparr>pm_Topic = topic,
                  pm_Key = Some (ByteEncoder (cm_Key origmsg)),
                  pm_Value = Some (ByteEncoder (cm_Value origmsg)),
                  pm_Partition = cm_Partition origmsg\<rparr>)
     else if partitioner = ''modulo'' then
       (if numPartitions = 0 then Inl DivideByZeroPanic
        else let targetPartition = rem_int32 (cm_Partition origmsg) numPartitions
             in if sint (numPartitions - 1) < sint targetPartition
                then Inl (Returned TargetPartitionMissing)
                else Inr \<lparr>pm_Topic = topic,
                          pm_Key = Some (ByteEncoder (cm_Key origmsg)),
                          pm_Value = Some (ByteEncoder (cm_Value origmsg)),
                          pm_Partition = targetPartition\<rparr>)
     else if partitioner = ''random'' then
       Inr \<lparr>pm_Topic = topic,
            pm_Key = None,
            pm_Value = Some (ByteEncoder (cm_Value origmsg)),
            pm_Partition = 0\<rparr>
     else Inl (Returned InvalidPartitioner))"

text \<open>
  Lines 114 to 117 of \<open>main\<close>: the producer is given sarama's manual partitioner, which
  sends a message to the partition its \<open>Partition\<close> field names, for the two policies
  that compute that field. For every other name the configuration keeps sarama's default,
  which chooses the partition itself and does not read the field.
\<close>

datatype ProducerPartitioner = DefaultPartitioner | ManualPartitioner

definition producer_partitioner :: "string \<Rightarrow> ProducerPartitioner" where
  "producer_partitioner partitioner =
    (if partitioner = ''keeppartition'' \<or> partitioner = ''modulo''
     then ManualPartitioner else DefaultPartitioner)"

section \<open>The consumer and its claim loop\<close>

text \<open>
  The \<open>Consumer\<close> struct. Its \<open>ready\<close> field holds a channel, which is an address in
  the table of channels below; \<open>producer\<close> and \<open>metrics\<close> are handles of the shared
  production queue and of the registry, and what the program does with them appears as
  events of the claim loop.
\<close>

record Consumer =
  ready :: nat
  numPartitions :: int32
  producerTopic :: string
  partitioner :: string

text \<open>
  \<open>ConsumeClaim\<close> ranges over the messages of one claim; the list holds the messages
  the channel delivers before it is closed. The model returns what the loop does, in
  order, and how it ends: \<open>None\<close> for the nil return after the channel is closed, the
  routing error it logged and returned, or the panic of \<open>PartitionMsg\<close>. \<open>Input msg\<close>
  is the send on \<open>consumer.producer.Input()\<close>, \<open>MeterMark\<close> the increment of
  \<open>messages.processed\<close>, and \<open>MarkMessage message\<close> the call of
  \<open>session.MarkMessage\<close>. A send that blocks for ever, or a process that stops in the
  middle, leaves a prefix of the list of events.
\<close>

datatype event =
    Log routing_error
  | Input ProducerMessage
  | MeterMark
  | MarkMessage ConsumerMessage

fun ConsumeClaim :: "Consumer \<Rightarrow> ConsumerMessage list \<Rightarrow> event list \<times> fault option" where
  "ConsumeClaim consumer [] = ([], None)"
| "ConsumeClaim consumer (message # messages) =
    (case PartitionMsg (partitioner consumer) (producerTopic consumer) message
            (numPartitions consumer) of
       Inl (Returned err) \<Rightarrow> ([Log err], Some (Returned err))
     | Inl DivideByZeroPanic \<Rightarrow> ([], Some DivideByZeroPanic)
     | Inr msg \<Rightarrow>
         (case ConsumeClaim consumer messages of
            (events, result) \<Rightarrow> (Input msg # MeterMark # MarkMessage message # events, result)))"

section \<open>Start-up\<close>

text \<open>
  \<open>main\<close> lower-cases the configured policy name with \<open>strings.ToLower\<close>. On ASCII
  text that function adds \<open>'a' - 'A'\<close> to every byte between \<open>'A'\<close> and \<open>'Z'\<close>, which
  is what is written here; bytes outside ASCII are left as they are.
\<close>

definition ToLower :: "string \<Rightarrow> string" where
  "ToLower s = map (\<lambda>c. if (65 :: nat) \<le> of_char c \<and> of_char c \<le> (90 :: nat)
                          then char_of (of_char c + (32 :: nat)) else c) s"

text \<open>
  The channels made for \<open>consumer.ready\<close>: \<open>chan_closed\<close> has one entry for each
  channel made so far, true once the channel is closed, and \<open>make(chan bool)\<close> adds an
  entry. \<open>closes\<close> lists the channels in the order in which \<open>close\<close> was called on
  them.
\<close>

record Process =
  consumer :: Consumer
  chan_closed :: "bool list"
  closes :: "nat list"

text \<open>
  What \<open>main\<close> reads from the configuration and what the calls into sarama give back
  are inputs of the model. A run without the \<open>--version\<close> and profiling flags is
  described. The steps that end the process are, in the order of the source: the panic
  after \<open>viper.ReadInConfig\<close>, and \<open>log.Fatal\<close> after \<open>sarama.NewClient\<close>,
  \<open>client.Partitions\<close>, \<open>sarama.NewAsyncProducerFromClient\<close> and
  \<open>sarama.NewConsumerGroupFromClient\<close>. The number of partitions is
  \<open>int32(len(part))\<close>.
\<close>

record Settings =
  producer_partitioner_name :: string
  producer_kafka_topic :: string

record Environment =
  read_config_ok :: bool
  new_client_ok :: bool
  partitions_result :: "int32 list option"
  new_producer_ok :: bool
  new_consumer_group_ok :: bool

datatype startup_failure =
    ConfigFilePanic
  | NewClientFatal
  | PartitionsFatal
  | NewProducerFatal
  | NewConsumerGroupFatal

definition startup ::
  "Settings \<Rightarrow> Environment \<Rightarrow> startup_failure + ProducerPartitioner \<times> Process" where
  "startup settings env =
    (if \<not> read_config_ok env then Inl ConfigFilePanic
     else if \<not> new_client_ok env then Inl NewClientFatal
     else let partitioner = ToLower (producer_partitioner_name settings);
              producerTopic = producer_kafka_topic settings
          in case partitions_result env of
               None \<Rightarrow> Inl PartitionsFatal
             | Some part \<Rightarrow>
                 if \<not> new_producer_ok env then Inl NewProducerFatal
                 else if \<not> new_consumer_group_ok env then Inl NewConsumerGroupFatal
                 else Inr (producer_partitioner partitioner,
                           \<lparr>consumer = \<lparr>ready = 0,
                                        numPartitions = of_nat (length part),
                                        producerTopic = producerTopic,
                                        partitioner = partitioner\<rparr>,
                            chan_closed = [False],
                            closes = []\<rparr>))"

section \<open>The session callbacks\<close>

text \<open>
  \<open>Setup\<close> closes the channel in \<open>consumer.ready\<close>. Closing a channel that is
  already closed is a run-time panic in Go, here \<open>None\<close>.
\<close>

definition Setup :: "Process \<Rightarrow> Process option" where
  "Setup p =
    (let c = ready (consumer p)
     in if c < length (chan_closed p) \<and> \<not> chan_closed p ! c
        then Some (p\<lparr>chan_closed := (chan_closed p)[c := True], closes := closes p @ [c]\<rparr>)
        else None)"

text \<open>
  The goroutine of lines 151 to 166 calls \<open>consumerGroup.Consume\<close> for ever. What one
  call does is decided by the broker and by sarama, so it is an input: whether the
  session got as far as calling \<open>Setup\<close>, and how the call ended (nil with the context
  still live, nil with the context cancelled, or an error, after which \<open>log.Panicf\<close>
  ends the process). After a call that ends with nil and a live context the loop stores a
  new channel in \<open>consumer.ready\<close>. A finite list of calls describes the loop up to
  some moment; \<open>Running\<close> says that it has not ended by then.
\<close>

datatype consume_result = NilContextLive | NilContextDone | ConsumeError

datatype loop_status = Running | Stopped | LogPanic | ClosePanic

fun consume_loop :: "(bool \<times> consume_result) list \<Rightarrow> Process \<Rightarrow> loop_status \<times> Process" where
  "consume_loop [] p = (Running, p)"
| "consume_loop ((setup_called, result) # rounds) p =
    (case (if setup_called then Setup p else Some p) of
       None \<Rightarrow> (ClosePanic, p)
     | Some p' \<Rightarrow>
         (case result of
            ConsumeError \<Rightarrow> (LogPanic, p')
          | NilContextDone \<Rightarrow> (Stopped, p')
          | NilContextLive \<Rightarrow>
              consume_loop rounds
                (p'\<lparr>consumer := (consumer p')\<lparr>ready := length (chan_closed p')\<rparr>,
                    chan_closed := chan_closed p' @ [False]\<rparr>)))"

text \<open>
  The state between two calls of \<open>Consume\<close>: \<open>consumer.ready\<close> is the channel made
  last, and it is open.
\<close>

definition fresh_gate :: "Process \<Rightarrow> bool" where
  "fresh_gate p \<longleftrightarrow>
     Suc (ready (consumer p)) = length (chan_closed p) \<and> \<not> chan_closed p ! ready (consumer p)"

section \<open>Shutdown\<close>

text \<open>
  The last loop of \<open>main\<close> (lines 212 to 225) selects between a receive on \<open>c1\<close> and
  \<open>time.After(5 * time.Minute)\<close>. The call of \<open>time.After\<close> is inside the loop, so
  each pass starts a new timer. Time is counted in nanoseconds, as \<open>time.Duration\<close>
  does, from the moment the loop is entered; the running time of the loop body is not
  counted. The list holds the moments at which the two close sequences send their tag, in
  order. A pass that starts at \<open>now\<close> receives the next tag when it is there no later
  than \<open>now + 5 * Minute\<close> and times out when no tag is there before that moment; when
  both happen at the same instant \<open>select\<close> may take either case. The result is the set
  of exit statuses the process can end with.
\<close>

definition Minute :: nat where
  "Minute = 60 * 1000000000"

fun await_close :: "nat \<Rightarrow> nat \<Rightarrow> nat list \<Rightarrow> int set" where
  "await_close now closecnt [] = {1}"
| "await_close now closecnt (t # ts) =
    (if t \<le> now + 5 * Minute
     then (if closecnt + 1 = 2 then {0} else await_close (max now t) (closecnt + 1) ts)
     else {}) \<union>
    (if now + 5 * Minute \<le> t then {1} else {})"

section \<open>Arithmetic of \<open>int32\<close>\<close>

lemma sint_int32_range:
  fixes n :: int32
  shows "- 2147483648 \<le> sint n" and "sint n < 2147483648"
  using sint_ge [of n] sint_lt [of n] by simp_all

lemma sint_minus_one:
  fixes n :: int32
  assumes "- 2147483648 < sint n"
  shows "sint (n - 1) = sint n - 1"
proof -
  have "sint (n - 1) = signed_take_bit 31 (sint n - 1)"
    by (simp add: sint_word_diff)
  also have "\<dots> = sint n - 1"
    using assms sint_int32_range(2) [of n]
    by (intro signed_take_bit_int_eq_self) simp_all
  finally show ?thesis .
qed

lemma sint_rem_int32:
  fixes a b :: int32
  assumes "0 \<le> sint a" and "0 < sint b"
  shows "sint (rem_int32 a b) = sint a mod sint b"
proof -
  have lo: "0 \<le> sint a mod sint b" and hi: "sint a mod sint b < sint b"
    using assms by simp_all
  have eq: "sgn (sint a) * (\<bar>sint a\<bar> mod \<bar>sint b\<bar>) = sint a mod sint b"
  proof (cases "sint a = 0")
    case True
    then show ?thesis by simp
  next
    case False
    with assms have "sgn (sint a) = 1" by simp
    with assms show ?thesis by simp
  qed
  have "sint (rem_int32 a b) = signed_take_bit 31 (sint a mod sint b)"
    by (simp add: rem_int32_def eq sint_sbintrunc')
  also have "\<dots> = sint a mod sint b"
    using lo hi sint_int32_range(2) [of b]
    by (intro signed_take_bit_int_eq_self) simp_all
  finally show ?thesis .
qed


lemma sint_pos_nonzero:
  fixes n :: int32
  shows "0 < sint n \<Longrightarrow> n \<noteq> 0"
  by auto

section \<open>Properties of \<open>PartitionMsg\<close>\<close>

text \<open>
  Claim C7. For every policy name and every message, \<open>PartitionMsg\<close> returns the
  configuration error when the policy name or the target topic is empty, whatever the
  message and the partition count are; otherwise it returns "value is not set" when the
  value is empty, whatever the key, the partition and the policy are; otherwise it returns
  the negative-partition error when the source partition is negative. The three checks
  come before the dispatch on the policy, in this order: the policy name is free in all
  three statements, so unknown names and the modulo policy with no partitions end the same
  way. Hence the call fails with one of these three errors whenever one of the conditions
  holds. The first error belongs to the class ConfigurationError, the other two to
  ValidationError.
\<close>

theorem PartitionMsg_common_validations:
  "(policy = [] \<or> topic = [] \<longrightarrow>
      PartitionMsg policy topic m n = Inl (Returned NotConfigured)) \<and>
   (policy \<noteq> [] \<and> topic \<noteq> [] \<and> cm_Value m = [] \<longrightarrow>
      PartitionMsg policy topic m n = Inl (Returned ValueNotSet)) \<and>
   (policy \<noteq> [] \<and> topic \<noteq> [] \<and> cm_Value m \<noteq> [] \<and> sint (cm_Partition m) < 0 \<longrightarrow>
      PartitionMsg policy topic m n = Inl (Returned NegativePartition)) \<and>
   (policy = [] \<or> topic = [] \<or> cm_Value m = [] \<or> sint (cm_Partition m) < 0 \<longrightarrow>
      PartitionMsg policy topic m n \<in>
        {Inl (Returned NotConfigured), Inl (Returned ValueNotSet), Inl (Returned NegativePartition)}) \<and>
   class_of NotConfigured = ConfigurationError \<and>
   class_of ValueNotSet = ValidationError \<and>
   class_of NegativePartition = ValidationError"
  by (simp add: PartitionMsg_def)

theorem PartitionMsg_common_validations_witness:
  "PartitionMsg ''modulo'' [] \<lparr>cm_Key = [1], cm_Value = [2], cm_Topic = ''src'', cm_Partition = 3, cm_Offset = 4\<rparr> 0
     = Inl (Returned NotConfigured) \<and>
   PartitionMsg ''modulo'' ''dst'' \<lparr>cm_Key = [1], cm_Value = [], cm_Topic = ''src'', cm_Partition = - 1, cm_Offset = 4\<rparr> 0
     = Inl (Returned ValueNotSet) \<and>
   PartitionMsg ''bogus'' ''dst'' \<lparr>cm_Key = [], cm_Value = [2], cm_Topic = ''src'', cm_Partition = - 1, cm_Offset = 4\<rparr> 0
     = Inl (Returned NegativePartition)"
  using
    PartitionMsg_common_validations [of "''modulo''" "[]"
      "\<lparr>cm_Key = [1], cm_Value = [2], cm_Topic = ''src'', cm_Partition = 3, cm_Offset = 4\<rparr>" 0]
    PartitionMsg_common_validations [of "''modulo''" "''dst''"
      "\<lparr>cm_Key = [1], cm_Value = [], cm_Topic = ''src'', cm_Partition = - 1, cm_Offset = 4\<rparr>" 0]
    PartitionMsg_common_validations [of "''bogus''" "''dst''"
      "\<lparr>cm_Key = [], cm_Value = [2], cm_Topic = ''src'', cm_Partition = - 1, cm_Offset = 4\<rparr>" 0]
  by simp

text \<open>
  Claim C3. For a message that passes the common checks, the keep-partition policy returns
  an error of class CapacityError exactly when the source partition is at least the number
  of target partitions, and otherwise returns a message whose partition is the source
  partition. The number of target partitions is any \<open>int32\<close> but the least one, where
  \<open>numPartitions - 1\<close> wraps around; every positive count, which is what the
  specification's data model allows, qualifies.
\<close>

theorem PartitionMsg_keeppartition:
  assumes "topic \<noteq> []" and "cm_Value m \<noteq> []" and "0 \<le> sint (cm_Partition m)"
    and "- 2147483648 < sint n"
  shows "(fails_with (PartitionMsg ''keeppartition'' topic m n) CapacityError
            \<longleftrightarrow> sint n \<le> sint (cm_Partition m)) \<and>
         (sint n \<le> sint (cm_Partition m) \<longrightarrow>
            PartitionMsg ''keeppartition'' topic m n = Inl (Returned DestFewerPartitions)) \<and>
         (sint (cm_Partition m) < sint n \<longrightarrow>
            PartitionMsg ''keeppartition'' topic m n =
              Inr \<lparr>pm_Topic = topic,
                   pm_Key = Some (ByteEncoder (cm_Key m)),
                   pm_Value = Some (ByteEncoder (cm_Value m)),
                   pm_Partition = cm_Partition m\<rparr>)"
proof -
  have "sint (n - 1) = sint n - 1"
    using assms(4) by (rule sint_minus_one)
  then show ?thesis
    using assms by (auto simp: PartitionMsg_def)
qed

theorem PartitionMsg_keeppartition_witness:
  "fails_with (PartitionMsg ''keeppartition'' ''dst''
      \<lparr>cm_Key = [], cm_Value = [2], cm_Topic = ''src'', cm_Partition = 3, cm_Offset = 4\<rparr> 3) CapacityError \<and>
   PartitionMsg ''keeppartition'' ''dst''
      \<lparr>cm_Key = [], cm_Value = [2], cm_Topic = ''src'', cm_Partition = 2, cm_Offset = 4\<rparr> 3 =
     Inr \<lparr>pm_Topic = ''dst'', pm_Key = Some (ByteEncoder []), pm_Value = Some (ByteEncoder [2]),
          pm_Partition = 2\<rparr>"
  using
    PartitionMsg_keeppartition [of "''dst''"
      "\<lparr>cm_Key = [], cm_Value = [2], cm_Topic = ''src'', cm_Partition = 3, cm_Offset = 4\<rparr>" 3]
    PartitionMsg_keeppartition [of "''dst''"
      "\<lparr>cm_Key = [], cm_Value = [2], cm_Topic = ''src'', cm_Partition = 2, cm_Offset = 4\<rparr>" 3]
  by simp


text \<open>
  Claim C6. For a message that passes the common checks, the hash policy returns an error
  of class ValidationError exactly when the key is empty. Otherwise the produced message
  carries the key and the value, and its \<open>Partition\<close> field is not assigned: it keeps
  Go's zero value, and under this policy the producer is not given the manual partitioner,
  so the destination side picks the partition.
\<close>

theorem PartitionMsg_hash:
  assumes "topic \<noteq> []" and "cm_Value m \<noteq> []" and "0 \<le> sint (cm_Partition m)"
  shows "(fails_with (PartitionMsg ''hash'' topic m n) ValidationError \<longleftrightarrow> cm_Key m = []) \<and>
         (cm_Key m = [] \<longrightarrow> PartitionMsg ''hash'' topic m n = Inl (Returned KeyNotSet)) \<and>
         (cm_Key m \<noteq> [] \<longrightarrow>
            PartitionMsg ''hash'' topic m n =
              Inr \<lparr>pm_Topic = topic,
                   pm_Key = Some (ByteEncoder (cm_Key m)),
                   pm_Value = Some (ByteEncoder (cm_Value m)),
                   pm_Partition = 0\<rparr>) \<and>
         producer_partitioner ''hash'' = DefaultPartitioner"
  using assms by (simp add: PartitionMsg_def producer_partitioner_def)

theorem PartitionMsg_hash_witness:
  "fails_with (PartitionMsg ''hash'' ''dst''
      \<lparr>cm_Key = [], cm_Value = [2], cm_Topic = ''src'', cm_Partition = 3, cm_Offset = 4\<rparr> 2) ValidationError \<and>
   PartitionMsg ''hash'' ''dst''
      \<lparr>cm_Key = [1], cm_Value = [2], cm_Topic = ''src'', cm_Partition = 3, cm_Offset = 4\<rparr> 2 =
     Inr \<lparr>pm_Topic = ''dst'', pm_Key = Some (ByteEncoder [1]), pm_Value = Some (ByteEncoder [2]),
          pm_Partition = 0\<rparr>"
  using
    PartitionMsg_hash [of "''dst''"
      "\<lparr>cm_Key = [], cm_Value = [2], cm_Topic = ''src'', cm_Partition = 3, cm_Offset = 4\<rparr>" 2]
    PartitionMsg_hash [of "''dst''"
      "\<lparr>cm_Key = [1], cm_Value = [2], cm_Topic = ''src'', cm_Partition = 3, cm_Offset = 4\<rparr>" 2]
  by simp

text \<open>
  Claim C8. Whenever \<open>PartitionMsg\<close> returns a message, under any policy name, the
  value of that message is the value of the source message, a key it carries is the key of
  the source message, and it does carry the key under the hash, keep-partition and modulo
  policies (the random policy drops it).
\<close>

theorem PartitionMsg_bytes_unchanged:
  assumes "PartitionMsg policy topic m n = Inr r"
  shows "pm_Value r = Some (ByteEncoder (cm_Value m)) \<and>
         (\<forall>k. pm_Key r = Some (ByteEncoder k) \<longrightarrow> k = cm_Key m) \<and>
         (policy \<in> {''hash'', ''keeppartition'', ''modulo''} \<longrightarrow>
            pm_Key r = Some (ByteEncoder (cm_Key m))) \<and>
         (policy = ''random'' \<longrightarrow> pm_Key r = None)"
  using assms by (auto simp: PartitionMsg_def Let_def split: if_splits)

theorem PartitionMsg_bytes_unchanged_witness:
  "PartitionMsg ''modulo'' ''dst''
      \<lparr>cm_Key = [1, 255], cm_Value = [2, 0], cm_Topic = ''src'', cm_Partition = 3, cm_Offset = 4\<rparr> 2 =
     Inr \<lparr>pm_Topic = ''dst'', pm_Key = Some (ByteEncoder [1, 255]),
          pm_Value = Some (ByteEncoder [2, 0]), pm_Partition = 1\<rparr> \<and>
   pm_Value \<lparr>pm_Topic = ''dst'', pm_Key = Some (ByteEncoder [1, 255]),
             pm_Value = Some (ByteEncoder [2, 0]), pm_Partition = 1\<rparr> =
     Some (ByteEncoder (cm_Value
       \<lparr>cm_Key = [1, 255], cm_Value = [2, 0], cm_Topic = ''src'', cm_Partition = 3, cm_Offset = 4\<rparr>)) \<and>
   pm_Key \<lparr>pm_Topic = ''dst'', pm_Key = Some (ByteEncoder [1, 255]),
           pm_Value = Some (ByteEncoder [2, 0]), pm_Partition = 1\<rparr> =
     Some (ByteEncoder (cm_Key
       \<lparr>cm_Key = [1, 255], cm_Value = [2, 0], cm_Topic = ''src'', cm_Partition = 3, cm_Offset = 4\<rparr>))"
proof -
  have run: "PartitionMsg ''modulo'' ''dst''
      \<lparr>cm_Key = [1, 255], cm_Value = [2, 0], cm_Topic = ''src'', cm_Partition = 3, cm_Offset = 4\<rparr> 2 =
     Inr \<lparr>pm_Topic = ''dst'', pm_Key = Some (ByteEncoder [1, 255]),
          pm_Value = Some (ByteEncoder [2, 0]), pm_Partition = 1\<rparr>"
    by (simp add: PartitionMsg_def rem_int32_def)
  show ?thesis
    using run PartitionMsg_bytes_unchanged [OF run] by simp
qed

text \<open>
  Claim C2, amended. For a non-empty target topic, a message with a non-empty value and a
  source partition that is not negative, and a positive number of target partitions, the
  modulo policy returns a message whose partition is the source partition modulo the
  number of target partitions, which lies between 0 and that number.
\<close>

theorem PartitionMsg_modulo:
  assumes "topic \<noteq> []" and "cm_Value m \<noteq> []" and "0 \<le> sint (cm_Partition m)"
    and "0 < sint n"
  shows "PartitionMsg ''modulo'' topic m n =
           Inr \<lparr>pm_Topic = topic,
                pm_Key = Some (ByteEncoder (cm_Key m)),
                pm_Value = Some (ByteEncoder (cm_Value m)),
                pm_Partition = rem_int32 (cm_Partition m) n\<rparr> \<and>
         sint (rem_int32 (cm_Partition m) n) = sint (cm_Partition m) mod sint n \<and>
         0 \<le> sint (rem_int32 (cm_Partition m) n) \<and>
         sint (rem_int32 (cm_Partition m) n) < sint n"
proof -
  have pred: "sint (n - 1) = sint n - 1"
    using assms(4) by (intro sint_minus_one) simp
  have rem: "sint (rem_int32 (cm_Partition m) n) = sint (cm_Partition m) mod sint n"
    using assms(3,4) by (rule sint_rem_int32)
  have lo: "0 \<le> sint (cm_Partition m) mod sint n"
    and hi: "sint (cm_Partition m) mod sint n < sint n"
    using assms(4) by simp_all
  have nz: "n \<noteq> 0"
    using assms(4) by (rule sint_pos_nonzero)
  show ?thesis
    using assms(1-3) nz pred rem lo hi by (simp add: PartitionMsg_def Let_def)
qed

theorem PartitionMsg_modulo_witness:
  "PartitionMsg ''modulo'' ''dst''
      \<lparr>cm_Key = [1], cm_Value = [2], cm_Topic = ''src'', cm_Partition = 7, cm_Offset = 4\<rparr> 3 =
     Inr \<lparr>pm_Topic = ''dst'', pm_Key = Some (ByteEncoder [1]), pm_Value = Some (ByteEncoder [2]),
          pm_Partition = rem_int32 7 3\<rparr> \<and>
   sint (rem_int32 7 3) = 1"
  using PartitionMsg_modulo [of "''dst''"
      "\<lparr>cm_Key = [1], cm_Value = [2], cm_Topic = ''src'', cm_Partition = 7, cm_Offset = 4\<rparr>" 3]
  by simp

text \<open>
  Claim C2 as stated asks only for a source partition that is not negative and a positive
  partition count. A message with an empty value meets both and is refused.
\<close>

theorem PartitionMsg_modulo_empty_value:
  "0 \<le> sint (cm_Partition \<lparr>cm_Key = [1], cm_Value = [], cm_Topic = ''src'',
                             cm_Partition = 0, cm_Offset = 4\<rparr>) \<and>
   0 < sint (1 :: int32) \<and>
   PartitionMsg ''modulo'' ''dst''
      \<lparr>cm_Key = [1], cm_Value = [], cm_Topic = ''src'', cm_Partition = 0, cm_Offset = 4\<rparr> 1 =
     Inl (Returned ValueNotSet)"
  by (simp add: PartitionMsg_def)



section \<open>The claim loop\<close>

lemma ConsumeClaim_step:
  assumes "PartitionMsg (partitioner c) (producerTopic c) message (numPartitions c) = Inr msg"
  shows "fst (ConsumeClaim c (message # messages)) =
           Input msg # MeterMark # MarkMessage message # fst (ConsumeClaim c messages)"
  using assms by (simp split: prod.splits)

lemma ConsumeClaim_stop:
  assumes "PartitionMsg (partitioner c) (producerTopic c) message (numPartitions c) = Inl f"
  shows "fst (ConsumeClaim c (message # messages)) =
           (case f of Returned err \<Rightarrow> [Log err] | DivideByZeroPanic \<Rightarrow> [])"
  using assms by (simp split: fault.splits)

text \<open>
  Claim C1. Wherever a run of the claim loop marks a message, the two events just before
  the mark are the send of that message's routed form to the production queue and the
  increment of the meter, and the message is one of the claim's messages that
  \<open>PartitionMsg\<close> accepted. The statement is about every position of the list of
  events, so it holds for every prefix of a run too: no mark comes before its hand-off,
  and no message that was not handed off is marked.
\<close>

theorem ConsumeClaim_marks_after_handoff:
  assumes "fst (ConsumeClaim c messages) = before @ MarkMessage message # after"
  shows "\<exists>earlier msg.
           before = earlier @ [Input msg, MeterMark] \<and>
           PartitionMsg (partitioner c) (producerTopic c) message (numPartitions c) = Inr msg \<and>
           message \<in> set messages"
  using assms
proof (induction messages arbitrary: before)
  case Nil
  then show ?case by simp
next
  case (Cons m ms)
  show ?case
  proof (cases "PartitionMsg (partitioner c) (producerTopic c) m (numPartitions c)")
    case (Inl f)
    from Cons.prems ConsumeClaim_stop [OF Inl, of ms]
    have "(case f of Returned err \<Rightarrow> [Log err] | DivideByZeroPanic \<Rightarrow> []) =
            before @ MarkMessage message # after"
      by simp
    then have False
      by (cases f) (auto simp: Cons_eq_append_conv)
    then show ?thesis ..
  next
    case (Inr msg)
    from Cons.prems ConsumeClaim_step [OF Inr, of ms]
    have eq: "Input msg # MeterMark # MarkMessage m # fst (ConsumeClaim c ms) =
                before @ MarkMessage message # after"
      by simp
    show ?thesis
    proof (cases "length before \<le> 2")
      case True
      then consider "before = []" | x where "before = [x]" | x y where "before = [x, y]"
        by (cases before; cases "tl before"; cases "tl (tl before)") auto
      then show ?thesis
      proof cases
        case 1
        with eq show ?thesis by simp
      next
        case 2
        with eq show ?thesis by simp
      next
        case 3
        with eq have "before = [] @ [Input msg, MeterMark]" and "message = m"
          by simp_all
        with Inr show ?thesis by auto
      qed
    next
      case False
      then obtain x y z rest where before: "before = x # y # z # rest"
        by (cases before; cases "tl before"; cases "tl (tl before)") auto
      with eq have tail: "fst (ConsumeClaim c ms) = rest @ MarkMessage message # after"
        and head: "x = Input msg" "y = MeterMark" "z = MarkMessage m"
        by simp_all
      from Cons.IH [OF tail] obtain earlier msg' where
        found: "rest = earlier @ [Input msg', MeterMark]"
        "PartitionMsg (partitioner c) (producerTopic c) message (numPartitions c) = Inr msg'"
        "message \<in> set ms"
        by blast
      from before found(1) have
        "before = (x # y # z # earlier) @ [Input msg', MeterMark]"
        by simp
      with found(2,3) show ?thesis by auto
    qed
  qed
qed

theorem ConsumeClaim_marks_after_handoff_witness:
  "fst (ConsumeClaim
      \<lparr>ready = 0, numPartitions = 2, producerTopic = ''dst'', partitioner = ''modulo''\<rparr>
      [\<lparr>cm_Key = [1], cm_Value = [2], cm_Topic = ''src'', cm_Partition = 0, cm_Offset = 7\<rparr>,
       \<lparr>cm_Key = [3], cm_Value = [4], cm_Topic = ''src'', cm_Partition = 3, cm_Offset = 8\<rparr>,
       \<lparr>cm_Key = [5], cm_Value = [], cm_Topic = ''src'', cm_Partition = 1, cm_Offset = 9\<rparr>]) =
     [Input \<lparr>pm_Topic = ''dst'', pm_Key = Some (ByteEncoder [1]),
             pm_Value = Some (ByteEncoder [2]), pm_Partition = 0\<rparr>,
      MeterMark,
      MarkMessage \<lparr>cm_Key = [1], cm_Value = [2], cm_Topic = ''src'', cm_Partition = 0, cm_Offset = 7\<rparr>,
      Input \<lparr>pm_Topic = ''dst'', pm_Key = Some (ByteEncoder [3]),
             pm_Value = Some (ByteEncoder [4]), pm_Partition = 1\<rparr>,
      MeterMark,
      MarkMessage \<lparr>cm_Key = [3], cm_Value = [4], cm_Topic = ''src'', cm_Partition = 3, cm_Offset = 8\<rparr>,
      Log ValueNotSet] \<and>
   (\<exists>earlier msg.
      [Input \<lparr>pm_Topic = ''dst'', pm_Key = Some (ByteEncoder [1]),
              pm_Value = Some (ByteEncoder [2]), pm_Partition = 0\<rparr>,
       MeterMark,
       MarkMessage \<lparr>cm_Key = [1], cm_Value = [2], cm_Topic = ''src'', cm_Partition = 0, cm_Offset = 7\<rparr>,
       Input \<lparr>pm_Topic = ''dst'', pm_Key = Some (ByteEncoder [3]),
              pm_Value = Some (ByteEncoder [4]), pm_Partition = 1\<rparr>,
       MeterMark] = earlier @ [Input msg, MeterMark] \<and>
      PartitionMsg ''modulo'' ''dst''
        \<lparr>cm_Key = [3], cm_Value = [4], cm_Topic = ''src'', cm_Partition = 3, cm_Offset = 8\<rparr> 2 =
        Inr msg)"
proof -
  let ?c = "\<lparr>ready = 0, numPartitions = 2, producerTopic = ''dst'', partitioner = ''modulo''\<rparr>"
  let ?m0 = "\<lparr>cm_Key = [1], cm_Value = [2], cm_Topic = ''src'', cm_Partition = 0, cm_Offset = 7\<rparr>"
  let ?m1 = "\<lparr>cm_Key = [3], cm_Value = [4], cm_Topic = ''src'', cm_Partition = 3, cm_Offset = 8\<rparr>"
  let ?m2 = "\<lparr>cm_Key = [5], cm_Value = [], cm_Topic = ''src'', cm_Partition = 1, cm_Offset = 9\<rparr>"
  let ?r0 = "\<lparr>pm_Topic = ''dst'', pm_Key = Some (ByteEncoder [1]),
              pm_Value = Some (ByteEncoder [2]), pm_Partition = 0\<rparr>"
  let ?r1 = "\<lparr>pm_Topic = ''dst'', pm_Key = Some (ByteEncoder [3]),
              pm_Value = Some (ByteEncoder [4]), pm_Partition = 1\<rparr>"
  have run: "fst (ConsumeClaim ?c [?m0, ?m1, ?m2]) =
      [Input ?r0, MeterMark, MarkMessage ?m0, Input ?r1, MeterMark] @
      MarkMessage ?m1 # [Log ValueNotSet]"
    by (simp add: PartitionMsg_def rem_int32_def)
  from ConsumeClaim_marks_after_handoff [OF run] run
  show ?thesis by simp
qed

section \<open>Unknown policy names\<close>




section \<open>The ready channel\<close>

lemma Setup_fresh:
  assumes "fresh_gate p"
  shows "Setup p = Some (p\<lparr>chan_closed := (chan_closed p)[ready (consumer p) := True],
                           closes := closes p @ [ready (consumer p)]\<rparr>)"
  using assms by (auto simp: Setup_def fresh_gate_def Let_def)

lemma fresh_gate_next:
  assumes "Suc (ready (consumer p)) = length (chan_closed p)"
  shows "fresh_gate (p\<lparr>consumer := (consumer p)\<lparr>ready := length (chan_closed p)\<rparr>,
                       chan_closed := chan_closed p @ [False]\<rparr>)"
  using assms by (simp add: fresh_gate_def nth_append)

lemma consume_loop_no_close_panic:
  assumes "fresh_gate p"
  shows "fst (consume_loop rounds p) \<noteq> ClosePanic"
  using assms
proof (induction rounds arbitrary: p)
  case Nil
  then show ?case by simp
next
  case (Cons round rounds)
  obtain setup_called result where round: "round = (setup_called, result)"
    by (cases round)
  let ?r = "ready (consumer p)"
  define p' where "p' = (if setup_called
      then p\<lparr>chan_closed := (chan_closed p)[?r := True], closes := closes p @ [?r]\<rparr> else p)"
  have step: "(if setup_called then Setup p else Some p) = Some p'"
    using Setup_fresh [OF Cons.prems] by (simp add: p'_def)
  have len: "Suc (ready (consumer p')) = length (chan_closed p')"
    using Cons.prems by (simp add: p'_def fresh_gate_def)
  let ?q = "p'\<lparr>consumer := (consumer p')\<lparr>ready := length (chan_closed p')\<rparr>,
               chan_closed := chan_closed p' @ [False]\<rparr>"
  have "fresh_gate ?q"
    using len by (rule fresh_gate_next)
  then have "fst (consume_loop rounds ?q) \<noteq> ClosePanic"
    by (rule Cons.IH)
  then show ?case
    using step by (cases result) (simp_all add: round)
qed

lemma consume_loop_closes:
  assumes "fresh_gate p"
  shows "\<exists>new. closes (snd (consume_loop rounds p)) = closes p @ new \<and>
               sorted_wrt (<) new \<and> (\<forall>c \<in> set new. ready (consumer p) \<le> c) \<and>
               (\<forall>res rest. rounds = (True, res) # rest \<longrightarrow> (\<exists>cs. new = ready (consumer p) # cs))"
  using assms
proof (induction rounds arbitrary: p)
  case Nil
  then show ?case by simp
next
  case (Cons round rounds)
  obtain setup_called result where round: "round = (setup_called, result)"
    by (cases round)
  let ?r = "ready (consumer p)"
  define p' where "p' = (if setup_called
      then p\<lparr>chan_closed := (chan_closed p)[?r := True], closes := closes p @ [?r]\<rparr> else p)"
  have step: "(if setup_called then Setup p else Some p) = Some p'"
    using Setup_fresh [OF Cons.prems] by (simp add: p'_def)
  have len: "Suc (ready (consumer p')) = length (chan_closed p')"
    using Cons.prems by (simp add: p'_def fresh_gate_def)
  have ready': "ready (consumer p') = ?r"
    by (simp add: p'_def)
  have closes': "closes p' = closes p @ (if setup_called then [?r] else [])"
    by (simp add: p'_def)
  show ?case
  proof (cases result)
    case NilContextLive
    define q where "q = p'\<lparr>consumer := (consumer p')\<lparr>ready := length (chan_closed p')\<rparr>,
                 chan_closed := chan_closed p' @ [False]\<rparr>"
    have run: "consume_loop (round # rounds) p = consume_loop rounds q"
      using step by (simp add: round NilContextLive q_def)
    have "fresh_gate q"
      unfolding q_def using len by (rule fresh_gate_next)
    from Cons.IH [OF this] obtain new where
      new: "closes (snd (consume_loop rounds q)) = closes q @ new"
           "sorted_wrt (<) new" "\<forall>c \<in> set new. ready (consumer q) \<le> c"
      by auto
    have q: "closes q = closes p'" "ready (consumer q) = Suc ?r"
      using len ready' by (simp_all add: q_def)
    have above: "\<forall>c \<in> set new. ?r < c"
      using new(3) q(2) by auto
    let ?new = "(if setup_called then [?r] else []) @ new"
    have "closes (snd (consume_loop (round # rounds) p)) = closes p @ ?new"
      using new(1) closes' q(1) by (simp add: run)
    moreover have "sorted_wrt (<) ?new"
      using new(2) above by simp
    moreover have "\<forall>c \<in> set ?new. ?r \<le> c"
      using above by auto
    moreover have "\<forall>res rest. round # rounds = (True, res) # rest \<longrightarrow>
        (\<exists>cs. ?new = ?r # cs)"
      by (auto simp: round)
    ultimately show ?thesis
      by (intro exI [of _ ?new] conjI)
  next
    case NilContextDone
    have run: "consume_loop (round # rounds) p = (Stopped, p')"
      using step by (simp add: round NilContextDone)
    show ?thesis
      unfolding run using closes' by (auto simp: round)
  next
    case ConsumeError
    have run: "consume_loop (round # rounds) p = (LogPanic, p')"
      using step by (simp add: round ConsumeError)
    show ?thesis
      unfolding run using closes' by (auto simp: round)
  qed
qed

lemma startup_initial_process:
  assumes "startup settings env = Inr (pp, p0)"
  shows "fresh_gate p0" and "closes p0 = []" and "ready (consumer p0) = 0"
  using assms
  by (auto simp: startup_def fresh_gate_def Let_def split: if_splits option.splits)

text \<open>
  Claim C9. The ready gate is the channel that start-up stores in \<open>consumer.ready\<close> and
  that \<open>main\<close> then waits on. However many calls of \<open>Consume\<close> follow and however
  they end, no call of \<open>Setup\<close> closes a channel twice, so no channel is fired more than
  once; and when the first session calls \<open>Setup\<close>, that call closes the gate and no
  later call of \<open>Setup\<close> closes it again: the later calls close the channels that the
  loop has stored in \<open>consumer.ready\<close> since.
\<close>

theorem ReadyGate_fired_once:
  assumes "startup settings env = Inr (pp, p0)"
  shows "fst (consume_loop rounds p0) \<noteq> ClosePanic \<and>
         distinct (closes (snd (consume_loop rounds p0))) \<and>
         (\<forall>res rest. rounds = (True, res) # rest \<longrightarrow>
            (\<exists>cs. closes (snd (consume_loop rounds p0)) = ready (consumer p0) # cs \<and>
                  ready (consumer p0) \<notin> set cs))"
proof -
  note init = startup_initial_process [OF assms]
  from consume_loop_closes [OF init(1), of rounds] obtain new where
    new: "closes (snd (consume_loop rounds p0)) = new" "sorted_wrt (<) new"
      "\<forall>res rest. rounds = (True, res) # rest \<longrightarrow> (\<exists>cs. new = ready (consumer p0) # cs)"
    using init(2) by auto
  have no_panic: "fst (consume_loop rounds p0) \<noteq> ClosePanic"
    using init(1) by (rule consume_loop_no_close_panic)
  have once: "distinct new"
    using new(2) by (simp add: strict_sorted_iff)
  have first: "\<forall>res rest. rounds = (True, res) # rest \<longrightarrow>
      (\<exists>cs. new = ready (consumer p0) # cs \<and> ready (consumer p0) \<notin> set cs)"
  proof (intro allI impI)
    fix res rest
    assume "rounds = (True, res) # rest"
    with new(3) obtain cs where "new = ready (consumer p0) # cs"
      by blast
    with once show "\<exists>cs. new = ready (consumer p0) # cs \<and> ready (consumer p0) \<notin> set cs"
      by simp
  qed
  from no_panic once first show ?thesis
    unfolding new(1) by (intro conjI)
qed

theorem ReadyGate_fired_once_witness:
  "closes (snd (consume_loop
      [(True, NilContextLive), (True, NilContextLive), (True, NilContextDone)]
      \<lparr>consumer = \<lparr>ready = 0, numPartitions = 2, producerTopic = ''dst'',
                   partitioner = ''modulo''\<rparr>,
        chan_closed = [False], closes = []\<rparr>)) = [0, 1, 2] \<and>
   (\<exists>cs. closes (snd (consume_loop
      [(True, NilContextLive), (True, NilContextLive), (True, NilContextDone)]
      \<lparr>consumer = \<lparr>ready = 0, numPartitions = 2, producerTopic = ''dst'',
                   partitioner = ''modulo''\<rparr>,
        chan_closed = [False], closes = []\<rparr>)) = 0 # cs \<and> 0 \<notin> set cs)"
proof -
  have start: "startup \<lparr>producer_partitioner_name = ''Modulo'', producer_kafka_topic = ''dst''\<rparr>
      \<lparr>read_config_ok = True, new_client_ok = True, partitions_result = Some [0, 1],
       new_producer_ok = True, new_consumer_group_ok = True\<rparr> =
    Inr (ManualPartitioner,
      \<lparr>consumer = \<lparr>ready = 0, numPartitions = 2, producerTopic = ''dst'',
                   partitioner = ''modulo''\<rparr>,
        chan_closed = [False], closes = []\<rparr>)"
    by code_simp
  have run: "closes (snd (consume_loop
      [(True, NilContextLive), (True, NilContextLive), (True, NilContextDone)]
      \<lparr>consumer = \<lparr>ready = 0, numPartitions = 2, producerTopic = ''dst'',
                   partitioner = ''modulo''\<rparr>,
        chan_closed = [False], closes = []\<rparr>)) = [0, 1, 2]"
    by (simp add: Setup_def)
  show ?thesis
    using run ReadyGate_fired_once [OF start,
      of "[(True, NilContextLive), (True, NilContextLive), (True, NilContextDone)]"]
    by simp
qed

section \<open>The shutdown deadline\<close>

lemma await_close_in_time:
  assumes "t1 \<le> t2" and "t2 < 5 * Minute"
  shows "await_close 0 0 [t1, t2] = {0}"
  using assms by (simp add: max_def)

lemma await_close_first_late:
  assumes "5 * Minute < t1"
  shows "await_close 0 0 (t1 # ts) = {1}"
  using assms by simp

lemma await_close_second_late:
  assumes "t1 < 5 * Minute" and "t1 + 5 * Minute < t2"
  shows "await_close 0 0 [t1, t2] = {1}"
  using assms by (simp add: max_def)

text \<open>
  Claim C5. When both tags arrive within five minutes the exit status is 0
  (\<open>await_close_in_time\<close>), and when the first tag is later than that, or the second
  is more than five minutes after the first, it is 1. The deadline is not fixed, though:
  the timer starts again after the first tag. With the first tag after four minutes and
  the second after eight, one tag is missing when five minutes have passed since the
  loop was entered, and the process still ends with status 0.
\<close>

theorem await_close_timer_restarts:
  "await_close 0 0 [4 * Minute, 8 * Minute] = {0}"
  by (simp add: Minute_def)

end
